theory Spec2Isabelle
  imports Complex_Main
begin

section \<open>Backward selection of an OLS model by p-value\<close>

text \<open>
  A shallow embedding of the class \<open>OLS_BackwardsSelection\<close> of
  \<^verbatim>\<open>OLS_BackwardsSelection.py\<close>. The object is a record, every method takes the
  object and returns it (possibly changed) together with either a raised exception or the
  returned value. Floating-point numbers are read as reals, so NaN is outside the model.
\<close>

subsection \<open>Data\<close>

text \<open>The Python exceptions that the methods and the library calls they make can raise.\<close>

datatype error = AttributeError | TypeError | IndexError | ValueError | KeyError | AxisError

text \<open>
  A two-dimensional numpy array of shape \<open>(nrows, length columns)\<close>, kept column by
  column; every column of an array holds \<open>nrows\<close> numbers.
\<close>

record ndarray =
  nrows :: nat
  columns :: "real list list"

text \<open>
  A pandas DataFrame: the length of its index and its labelled columns in order. Labels may
  repeat, as pandas allows.
\<close>

record dataframe =
  index_len :: nat
  cols :: "(string \<times> real list) list"

definition df_values :: "dataframe \<Rightarrow> ndarray" where
  \<comment> \<open>\<^verbatim>\<open>exog.values\<close>\<close>
  "df_values df = \<lparr>nrows = index_len df, columns = map snd (cols df)\<rparr>"

definition df_columns :: "dataframe \<Rightarrow> string list" where
  \<comment> \<open>\<^verbatim>\<open>list(exog.columns.values)\<close>\<close>
  "df_columns df = map fst (cols df)"

text \<open>What the methods read from a statsmodels regression result.\<close>

record regression_results =
  params :: "real list"
  pvalues :: "real list"
  rsquared :: real
  rsquared_adj :: real

text \<open>The model object \<^verbatim>\<open>sm.OLS(y, x)\<close> holds the data it was built from.\<close>

record ols_model =
  endog :: "real list"
  exog :: ndarray

text \<open>
  The statsmodels calls are external to the repository and are taken as parameters: building
  the model and fitting it. Either may raise.
\<close>

record sm_api =
  OLS :: "real list \<Rightarrow> ndarray \<Rightarrow> error + ols_model"
  fit :: "ols_model \<Rightarrow> error + regression_results"

text \<open>The fields of the object, in the order \<^verbatim>\<open>__init__\<close> assigns them.\<close>

record selector =
  modelX :: ndarray
  modelY :: "real list"
  variables :: "string list"
  modelXBack :: "ndarray option"
  model :: "ols_model option"
  results :: "regression_results option"
  coef :: "real list option"
  Rsquared :: "real option"
  Rsquared_adj :: "real option"

subsection \<open>Construction and fitting\<close>

definition init :: "dataframe \<Rightarrow> real list \<Rightarrow> error + selector" where
  \<comment> \<open>\<^verbatim>\<open>__init__(self, exog, endog)\<close>: nothing is checked, nothing is raised.\<close>
  "init exog_df endog_v =
     Inr \<lparr>modelX = df_values exog_df,
          modelY = endog_v,
          variables = df_columns exog_df,
          modelXBack = None,
          model = None,
          results = None,
          coef = None,
          Rsquared = None,
          Rsquared_adj = None\<rparr>"

text \<open>
  The test \<^verbatim>\<open>x == None or y == None\<close> of \<^verbatim>\<open>modelOLS\<close>. For \<open>None\<close> the comparison is
  true. For a numpy array it is made entry by entry and gives an array of \<open>False\<close>, whose
  truth value is an error when it has more than one entry and \<open>False\<close> when it has one
  (or none, with a deprecation warning in the numpy of the source's time). The target vector
  is read as a one-dimensional array. The second comparison is only made when the first one
  is false.
\<close>

definition ndarray_size :: "ndarray \<Rightarrow> nat" where
  "ndarray_size a = nrows a * length (columns a)"

definition eq_None_truth :: "nat \<Rightarrow> error + bool" where
  \<comment> \<open>The truth value of \<^verbatim>\<open>a == None\<close> for an array \<open>a\<close> of \<open>n\<close> entries.\<close>
  "eq_None_truth n = (if 1 < n then Inl ValueError else Inr False)"

definition x_or_y_is_None :: "real list option \<Rightarrow> ndarray option \<Rightarrow> error + bool" where
  "x_or_y_is_None y x =
     (case (case x of None \<Rightarrow> Inr True | Some xv \<Rightarrow> eq_None_truth (ndarray_size xv)) of
        Inl e \<Rightarrow> Inl e
      | Inr bx \<Rightarrow>
          if bx then Inr True
          else (case y of None \<Rightarrow> Inr True | Some yv \<Rightarrow> eq_None_truth (length yv)))"

definition modelOLS ::
  "sm_api \<Rightarrow> real list option \<Rightarrow> ndarray option \<Rightarrow> selector \<Rightarrow> (error + unit) \<times> selector" where
  \<comment> \<open>\<^verbatim>\<open>modelOLS(self, y=None, x=None)\<close>\<close>
  "modelOLS sm y x s =
     (case x_or_y_is_None y x of
        Inl e \<Rightarrow> (Inl e, s)
      | Inr missing \<Rightarrow>
          (let (x1, y1) = (case (missing, x, y) of
                             (False, Some xv, Some yv) \<Rightarrow> (xv, yv)
                           | _ \<Rightarrow> (modelX s, modelY s))
           in case OLS sm y1 x1 of
                Inl e \<Rightarrow> (Inl e, s)
              | Inr m \<Rightarrow>
                  (let s1 = s\<lparr>model := Some m\<rparr>
                   in case fit sm m of
                        Inl e \<Rightarrow> (Inl e, s1)
                      | Inr r \<Rightarrow>
                          (Inr (),
                           s1\<lparr>results := Some r,
                              coef := Some (params r),
                              Rsquared := Some (rsquared r),
                              Rsquared_adj := Some (rsquared_adj r)\<rparr>))))"

subsection \<open>Removing a column\<close>

definition py_index :: "nat \<Rightarrow> int \<Rightarrow> error + nat" where
  \<comment> \<open>Python and numpy indexing into a sequence of length \<open>n\<close>: a negative index counts
      from the end, an index out of range raises.\<close>
  "py_index n i =
     (let j = (if i < 0 then int n + i else i)
      in if 0 \<le> j \<and> j < int n then Inr (nat j) else Inl IndexError)"

definition list_del :: "'a list \<Rightarrow> int \<Rightarrow> error + 'a list" where
  \<comment> \<open>\<^verbatim>\<open>del xs[i]\<close>\<close>
  "list_del xs i =
     (case py_index (length xs) i of
        Inl e \<Rightarrow> Inl e
      | Inr j \<Rightarrow> Inr (take j xs @ drop (Suc j) xs))"

definition np_delete_axis1 :: "ndarray option \<Rightarrow> int \<Rightarrow> error + ndarray" where
  \<comment> \<open>\<^verbatim>\<open>np.delete(a, i, axis=1)\<close>; \<open>None\<close> is not an array with a second axis.\<close>
  "np_delete_axis1 a i =
     (case a of
        None \<Rightarrow> Inl AxisError
      | Some m \<Rightarrow>
          (case list_del (columns m) i of
             Inl e \<Rightarrow> Inl e
           | Inr cs \<Rightarrow> Inr (m\<lparr>columns := cs\<rparr>)))"

definition removeColumn :: "int \<Rightarrow> selector \<Rightarrow> (error + unit) \<times> selector" where
  \<comment> \<open>\<^verbatim>\<open>_removeColumn(self, colNum)\<close>\<close>
  "removeColumn colNum s =
     (case list_del (variables s) colNum of
        Inl e \<Rightarrow> (Inl e, s)
      | Inr vs \<Rightarrow>
          (let s1 = s\<lparr>variables := vs\<rparr>
           in case np_delete_axis1 (modelXBack s1) colNum of
                Inl e \<Rightarrow> (Inl e, s1)
              | Inr xb \<Rightarrow> (Inr (), s1\<lparr>modelXBack := Some xb\<rparr>)))"

subsection \<open>The selection loop\<close>

definition loop_cond :: "real \<Rightarrow> int \<Rightarrow> int \<Rightarrow> selector \<Rightarrow> error + bool" where
  \<comment> \<open>\<^verbatim>\<open>sum(self.results.pvalues > criteria) != 0 and maxSteps >= iteration and self.Rsquared > 0.7\<close>,
      evaluated left to right.\<close>
  "loop_cond criteria maxSteps iteration s =
     (case results s of
        None \<Rightarrow> Inl AttributeError
      | Some r \<Rightarrow>
          if length (filter (\<lambda>p. p > criteria) (pvalues r)) \<noteq> 0 then
            if maxSteps \<ge> iteration then
              (case Rsquared s of
                 None \<Rightarrow> Inl TypeError
               | Some v \<Rightarrow> Inr (v > 0.7))
            else Inr False
          else Inr False)"

definition py_max :: "real list \<Rightarrow> error + real" where
  \<comment> \<open>The builtin \<^verbatim>\<open>max\<close>: the first of the largest items, an empty argument raises.\<close>
  "py_max xs =
     (case xs of
        [] \<Rightarrow> Inl ValueError
      | x # ys \<Rightarrow> Inr (foldl (\<lambda>m y. if m < y then y else m) x ys))"

definition indexRemove :: "real list \<Rightarrow> error + int" where
  \<comment> \<open>\<^verbatim>\<open>np.where(pvalues == max(pvalues))[0][0]\<close>\<close>
  "indexRemove pv =
     (case py_max pv of
        Inl e \<Rightarrow> Inl e
      | Inr m \<Rightarrow>
          (case filter (\<lambda>i. pv ! i = m) [0..<length pv] of
             [] \<Rightarrow> Inl IndexError
           | i # _ \<Rightarrow> Inr (int i)))"

definition loop_body :: "sm_api \<Rightarrow> selector \<Rightarrow> (error + unit) \<times> selector" where
  \<comment> \<open>One pass of the \<^verbatim>\<open>while\<close> body, up to the increment of \<^verbatim>\<open>iteration\<close>.\<close>
  "loop_body sm s =
     (case results s of
        None \<Rightarrow> (Inl AttributeError, s)
      | Some r \<Rightarrow>
          (case indexRemove (pvalues r) of
             Inl e \<Rightarrow> (Inl e, s)
           | Inr i \<Rightarrow>
               (case removeColumn i s of
                  (Inl e, s1) \<Rightarrow> (Inl e, s1)
                | (Inr u, s1) \<Rightarrow> modelOLS sm (Some (modelY s1)) (modelXBack s1) s1)))"

function while_loop ::
  "sm_api \<Rightarrow> real \<Rightarrow> int \<Rightarrow> int \<Rightarrow> selector \<Rightarrow> (error + unit) \<times> selector" where
  "while_loop sm criteria maxSteps iteration s =
     (case loop_cond criteria maxSteps iteration s of
        Inl e \<Rightarrow> (Inl e, s)
      | Inr b \<Rightarrow>
          if b then
            (case loop_body sm s of
               (Inl e, s1) \<Rightarrow> (Inl e, s1)
             | (Inr u, s1) \<Rightarrow> while_loop sm criteria maxSteps (iteration + 1) s1)
          else (Inr (), s))"
  by pat_completeness auto
termination
  by (relation "measure (\<lambda>(sm, criteria, maxSteps, iteration, s). nat (maxSteps + 1 - iteration))")
     (auto simp: loop_cond_def split: option.splits if_splits)

declare while_loop.simps [simp del]

definition backwardSelect ::
  "sm_api \<Rightarrow> real \<Rightarrow> int \<Rightarrow> selector \<Rightarrow> (error + unit) \<times> selector" where
  \<comment> \<open>\<^verbatim>\<open>backwardSelect(self, criteria = 0.05, maxSteps = 10)\<close>\<close>
  "backwardSelect sm criteria maxSteps s =
     while_loop sm criteria maxSteps 0 (s\<lparr>modelXBack := Some (modelX s)\<rparr>)"

subsection \<open>Prediction\<close>

definition loc_columns :: "dataframe \<Rightarrow> string list \<Rightarrow> error + dataframe" where
  \<comment> \<open>\<^verbatim>\<open>df.loc[:, labels]\<close>: for each requested label in turn, the columns that carry it;
      a label that no column carries raises.\<close>
  "loc_columns df labels =
     (if \<forall>l \<in> set labels. l \<in> set (map fst (cols df))
      then Inr (df\<lparr>cols := concat (map (\<lambda>l. filter (\<lambda>c. fst c = l) (cols df)) labels)\<rparr>)
      else Inl KeyError)"

definition results_predict :: "regression_results \<Rightarrow> dataframe \<Rightarrow> error + real list" where
  \<comment> \<open>\<^verbatim>\<open>results.predict(exog)\<close> of statsmodels: the product of the data with the
      parameter vector, one number for each row.\<close>
  "results_predict r df =
     (if length (cols df) \<noteq> length (params r) then Inl ValueError
      else Inr (map (\<lambda>i. sum_list (map2 (\<lambda>c b. snd c ! i * b) (cols df) (params r)))
                    [0..<index_len df]))"

definition predict :: "selector \<Rightarrow> dataframe \<Rightarrow> (error + real list) \<times> selector" where
  \<comment> \<open>\<^verbatim>\<open>predict(self, exogTest)\<close>\<close>
  "predict s exogTest =
     (case results s of
        None \<Rightarrow> (Inl AttributeError, s)
      | Some r \<Rightarrow>
          (case loc_columns exogTest (variables s) of
             Inl e \<Rightarrow> (Inl e, s)
           | Inr d \<Rightarrow> (results_predict r d, s)))"


subsection \<open>Concrete data\<close>

text \<open>
  A stand-in for statsmodels whose fit result depends only on the number of columns it is
  given, and tables of fit results: the end-to-end scenario of the specification and two
  variants of it with a poorer fit.
\<close>

definition table_sm :: "(nat \<Rightarrow> regression_results) \<Rightarrow> sm_api" where
  "table_sm f =
     \<lparr>OLS = (\<lambda>y x. Inr \<lparr>endog = y, exog = x\<rparr>),
      fit = (\<lambda>m. Inr (f (length (columns (exog m)))))\<rparr>"

definition scenario_table :: "nat \<Rightarrow> regression_results" where
  "scenario_table k =
     (if k = 3 then \<lparr>params = [1, 2, 3], pvalues = [0.8, 0.03, 0.2],
                     rsquared = 0.9, rsquared_adj = 0.85\<rparr>
      else \<lparr>params = [2, 3], pvalues = [0.02, 0.04],
            rsquared = 0.85, rsquared_adj = 0.82\<rparr>)"

definition lowadj_table :: "nat \<Rightarrow> regression_results" where
  \<comment> \<open>The scenario's p-values with R-squared above 0.7 and adjusted R-squared below it.\<close>
  "lowadj_table k =
     (if k = 3 then \<lparr>params = [1, 2, 3], pvalues = [0.8, 0.03, 0.2],
                     rsquared = 0.75, rsquared_adj = 0.5\<rparr>
      else \<lparr>params = [2, 3], pvalues = [0.02, 0.04],
            rsquared = 0.74, rsquared_adj = 0.61\<rparr>)"

definition weak_table :: "nat \<Rightarrow> regression_results" where
  \<comment> \<open>The scenario's p-values with R-squared and adjusted R-squared below 0.7.\<close>
  "weak_table k =
     \<lparr>params = [1, 2, 3], pvalues = [0.8, 0.03, 0.2], rsquared = 0.6, rsquared_adj = 0.5\<rparr>"

definition demo_exog :: dataframe where
  "demo_exog = \<lparr>index_len = 2, cols = [(''X1'', [1, 2]), (''X2'', [3, 4]), (''X3'', [5, 6])]\<rparr>"

definition demo_endog :: "real list" where
  "demo_endog = [7, 8]"

definition unfitted :: selector where
  \<comment> \<open>The object right after construction.\<close>
  "unfitted = projr (init demo_exog demo_endog)"

definition fitted :: "sm_api \<Rightarrow> selector" where
  \<comment> \<open>The object after construction and \<^verbatim>\<open>modelOLS()\<close>.\<close>
  "fitted sm = snd (modelOLS sm None None unfitted)"

definition started :: "sm_api \<Rightarrow> selector" where
  \<comment> \<open>The fitted object as the loop of \<^verbatim>\<open>backwardSelect\<close> first sees it.\<close>
  "started sm = (fitted sm)\<lparr>modelXBack := Some (modelX (fitted sm))\<rparr>"

definition selected :: "sm_api \<Rightarrow> selector" where
  \<comment> \<open>The object after construction, \<^verbatim>\<open>modelOLS()\<close> and \<^verbatim>\<open>backwardSelect()\<close>, whether that
      call returned or raised.\<close>
  "selected sm = snd (backwardSelect sm 0.05 10 (fitted sm))"

definition demo_test :: dataframe where
  \<comment> \<open>Prediction data with the columns in another order and two more columns, which
      share a label.\<close>
  "demo_test = \<lparr>index_len = 2,
                 cols = [(''X3'', [1, 0]), (''Z'', [9, 9]), (''X2'', [0, 1]),
                         (''X1'', [4, 4]), (''Z'', [8, 8])]\<rparr>"

definition demo_test_only :: dataframe where
  \<comment> \<open>The columns of that data which carry a variable's label, in yet another order.\<close>
  "demo_test_only = \<lparr>index_len = 2,
                      cols = [(''X2'', [0, 1]), (''X3'', [1, 0]), (''X1'', [4, 4])]\<rparr>"

definition demo_test_dup :: dataframe where
  \<comment> \<open>Prediction data in which the label of a variable is carried by two columns.\<close>
  "demo_test_dup = \<lparr>index_len = 2,
                     cols = [(''X1'', [4, 4]), (''X2'', [0, 1]), (''X3'', [1, 0]),
                             (''X2'', [0, 1])]\<rparr>"

section \<open>Properties\<close>

subsection \<open>The largest p-value and the first index that carries it\<close>

lemma foldl_max_in: "foldl (\<lambda>m y. if m < y then y else m) x ys \<in> set (x # ys)"
  by (induction ys arbitrary: x) auto

lemma foldl_max_ge_init: "(x::real) \<le> foldl (\<lambda>m y. if m < y then y else m) x ys"
proof (induction ys arbitrary: x)
  case Nil
  show ?case by simp
next
  case (Cons y ys)
  have "x \<le> (if x < y then y else x)" by simp
  also have "\<dots> \<le> foldl (\<lambda>m y. if m < y then y else m) (if x < y then y else x) ys"
    by (rule Cons.IH)
  finally show ?case by simp
qed

lemma foldl_max_ge: "z \<in> set (x # ys) \<Longrightarrow> (z::real) \<le> foldl (\<lambda>m y. if m < y then y else m) x ys"
proof (induction ys arbitrary: x)
  case Nil
  then show ?case by simp
next
  case (Cons y ys)
  let ?x' = "if x < y then y else x"
  from Cons.prems consider "z = x" | "z = y" | "z \<in> set ys" by auto
  then show ?case
  proof cases
    case 1
    have "z \<le> ?x'" using 1 by simp
    also have "\<dots> \<le> foldl (\<lambda>m y. if m < y then y else m) ?x' ys" by (rule foldl_max_ge_init)
    finally show ?thesis by simp
  next
    case 2
    have "z \<le> ?x'" using 2 by simp
    also have "\<dots> \<le> foldl (\<lambda>m y. if m < y then y else m) ?x' ys" by (rule foldl_max_ge_init)
    finally show ?thesis by simp
  next
    case 3
    then have "z \<in> set (?x' # ys)" by simp
    then have "z \<le> foldl (\<lambda>m y. if m < y then y else m) ?x' ys" by (rule Cons.IH)
    then show ?thesis by simp
  qed
qed

lemma py_max_props:
  assumes "xs \<noteq> []"
  shows "\<exists>m. py_max xs = Inr m \<and> m \<in> set xs \<and> (\<forall>z \<in> set xs. z \<le> m)"
proof -
  from assms obtain x ys where xs: "xs = x # ys" by (cases xs) auto
  show ?thesis
    unfolding xs py_max_def using foldl_max_in [of x ys] foldl_max_ge [of _ x ys]
    by (simp del: set_simps foldl_Cons)
qed

lemma first_filter_upt:
  assumes "filter P [0..<n] = i # rest"
  shows "i < n \<and> P i \<and> (\<forall>j<i. \<not> P j)"
proof -
  from assms obtain us vs where split: "[0..<n] = us @ i # vs"
    and before: "\<forall>u\<in>set us. \<not> P u" and here: "P i"
    by (auto simp: filter_eq_Cons_iff)
  have "i \<in> set [0..<n]" unfolding split by simp
  then have less: "i < n" by simp
  have len: "length us < n"
    using arg_cong [OF split, of length] by simp
  have "[0..<n] ! length us = i" unfolding split by simp
  with len have i: "i = length us" by simp
  have "\<not> P j" if "j < i" for j
  proof -
    have "[0..<n] ! j = us ! j" unfolding split using that i by (simp add: nth_append)
    moreover have "[0..<n] ! j = j" using that less by simp
    ultimately have "j \<in> set us" using that i by (metis nth_mem)
    with before show ?thesis by blast
  qed
  with less here show ?thesis by blast
qed

lemma indexRemove_props:
  assumes "pv \<noteq> []"
  shows "\<exists>i<length pv. indexRemove pv = Inr (int i)
           \<and> (\<forall>j<length pv. pv ! j \<le> pv ! i) \<and> (\<forall>j<i. pv ! j < pv ! i)"
proof -
  from py_max_props [OF assms] obtain m where m: "py_max pv = Inr m"
    and mem: "m \<in> set pv" and ub: "\<forall>z\<in>set pv. z \<le> m" by blast
  from mem obtain k where "k < length pv" "pv ! k = m" by (auto simp: in_set_conv_nth)
  then have "k \<in> set (filter (\<lambda>i. pv ! i = m) [0..<length pv])" by simp
  then obtain i rest where f: "filter (\<lambda>i. pv ! i = m) [0..<length pv] = i # rest"
    by (cases "filter (\<lambda>i. pv ! i = m) [0..<length pv]") auto
  from first_filter_upt [OF f] have i: "i < length pv" "pv ! i = m" "\<forall>j<i. pv ! j \<noteq> m"
    by auto
  have le: "pv ! j \<le> pv ! i" if "j < length pv" for j
    using ub that i(2) by simp
  have "pv ! j < pv ! i" if "j < i" for j
  proof -
    from that i(1) have "j < length pv" by simp
    from le [OF this] i(3) that i(2) show ?thesis by fastforce
  qed
  moreover have "indexRemove pv = Inr (int i)" by (simp add: indexRemove_def m f)
  ultimately show ?thesis using i(1) le by blast
qed

text \<open>Of two equal largest p-values the first is chosen.\<close>

lemma indexRemove_tie: "indexRemove [0.9, 0.9, 0.1] = Inr 0"
  by (simp add: indexRemove_def py_max_def upt_conv_Cons)

subsection \<open>What fitting and removing a column change\<close>

lemma modelOLS_frame:
  "variables (snd (modelOLS sm y x s)) = variables s"
  "modelXBack (snd (modelOLS sm y x s)) = modelXBack s"
  "modelX (snd (modelOLS sm y x s)) = modelX s"
  "modelY (snd (modelOLS sm y x s)) = modelY s"
  by (simp_all add: modelOLS_def Let_def split: option.split sum.split prod.split bool.split)

lemma modelOLS_array_raises:
  assumes "1 < ndarray_size xv"
  shows "modelOLS sm y (Some xv) s = (Inl ValueError, s)"
  using assms by (simp add: modelOLS_def x_or_y_is_None_def eq_None_truth_def)

lemma py_index_nat: "py_index n (int i) = (if i < n then Inr i else Inl IndexError)"
  by (simp add: py_index_def)

lemma list_del_nat:
  "list_del xs (int i) = (if i < length xs then Inr (take i xs @ drop (Suc i) xs) else Inl IndexError)"
  by (simp add: list_del_def py_index_nat)

lemma removeColumn_variables:
  assumes "i < length (variables s)"
  shows "variables (snd (removeColumn (int i) s)) = take i (variables s) @ drop (Suc i) (variables s)"
  using assms by (simp add: removeColumn_def list_del_nat Let_def split: sum.split)

lemma list_del_length:
  assumes "list_del xs i = Inr ys"
  shows "Suc (length ys) = length xs"
proof -
  from assms obtain j where j: "py_index (length xs) i = Inr j"
    and ys: "ys = take j xs @ drop (Suc j) xs"
    by (auto simp: list_del_def split: sum.splits)
  from j have "j < length xs"
    by (auto simp: py_index_def Let_def split: if_splits)
  with ys show ?thesis by simp
qed

lemma list_del_same_length:
  assumes "length xs = length ys"
  shows "isl (list_del xs i) = isl (list_del ys i)"
  using assms by (simp add: list_del_def py_index_def Let_def)

lemma removeColumn_Inr:
  assumes "removeColumn i s = (Inr u, s1)"
  shows "\<exists>vs xb cs. modelXBack s = Some xb \<and> list_del (variables s) i = Inr vs
           \<and> list_del (columns xb) i = Inr cs
           \<and> s1 = s\<lparr>variables := vs, modelXBack := Some (xb\<lparr>columns := cs\<rparr>)\<rparr>"
proof (cases "list_del (variables s) i")
  case (Inl e)
  with assms show ?thesis by (simp add: removeColumn_def)
next
  case (Inr vs)
  note vs = this
  show ?thesis
  proof (cases "modelXBack s")
    case None
    with assms vs show ?thesis by (simp add: removeColumn_def np_delete_axis1_def)
  next
    case (Some xb)
    note xb = this
    show ?thesis
    proof (cases "list_del (columns xb) i")
      case (Inl e)
      with assms vs xb show ?thesis by (simp add: removeColumn_def np_delete_axis1_def)
    next
      case (Inr cs)
      with assms vs xb show ?thesis by (simp add: removeColumn_def np_delete_axis1_def)
    qed
  qed
qed

lemma removeColumn_sync:
  assumes "modelXBack s = Some xb" and "length (variables s) = length (columns xb)"
    and "removeColumn i s = (Inr u, s1)"
  shows "\<exists>xb1. modelXBack s1 = Some xb1
           \<and> length (variables s1) = length (columns xb1)
           \<and> Suc (length (variables s1)) = length (variables s)"
proof -
  from removeColumn_Inr [OF assms(3)] assms(1) obtain vs cs
    where vs: "list_del (variables s) i = Inr vs" and cs: "list_del (columns xb) i = Inr cs"
      and s1: "s1 = s\<lparr>variables := vs, modelXBack := Some (xb\<lparr>columns := cs\<rparr>)\<rparr>"
    by auto
  from list_del_length [OF vs] list_del_length [OF cs] assms(2) s1
  show ?thesis by simp
qed

lemma loop_body_unfold:
  assumes "results s = Some r" and "indexRemove (pvalues r) = Inr i"
  shows "loop_body sm s =
           (case removeColumn i s of
              (Inl e, s1) \<Rightarrow> (Inl e, s1)
            | (Inr u, s1) \<Rightarrow> modelOLS sm (Some (modelY s1)) (modelXBack s1) s1)"
  by (simp add: loop_body_def assms)

lemma loop_body_variables:
  assumes "results s = Some r" and "indexRemove (pvalues r) = Inr i"
  shows "variables (snd (loop_body sm s)) = variables (snd (removeColumn i s))"
proof (cases "removeColumn i s")
  case (Pair res s1)
  show ?thesis
  proof (cases res)
    case (Inl e)
    with Pair show ?thesis by (simp add: loop_body_unfold [OF assms])
  next
    case (Inr u)
    with Pair show ?thesis by (simp add: loop_body_unfold [OF assms] modelOLS_frame)
  qed
qed

lemma loop_body_modelXBack:
  assumes "results s = Some r" and "indexRemove (pvalues r) = Inr i"
  shows "modelXBack (snd (loop_body sm s)) = modelXBack (snd (removeColumn i s))"
proof (cases "removeColumn i s")
  case (Pair res s1)
  show ?thesis
  proof (cases res)
    case (Inl e)
    with Pair show ?thesis by (simp add: loop_body_unfold [OF assms])
  next
    case (Inr u)
    with Pair show ?thesis by (simp add: loop_body_unfold [OF assms] modelOLS_frame)
  qed
qed

lemma removeColumn_modelXBack:
  assumes "modelXBack s = Some xb" and "i < length (variables s)" and "i < length (columns xb)"
  shows "modelXBack (snd (removeColumn (int i) s))
           = Some (xb\<lparr>columns := take i (columns xb) @ drop (Suc i) (columns xb)\<rparr>)"
  using assms by (simp add: removeColumn_def np_delete_axis1_def list_del_nat)

text \<open>
  A pass on an object whose fit result has one p-value for each registry entry and whose
  working matrix has one column for each registry entry: the index chosen is the first one
  that carries the largest p-value, and the pass takes the entry at that index out of the
  registry and the column at that index out of the working matrix, whether or not the refit
  that follows succeeds.
\<close>

lemma aligned_pass_removes_first_max:
  assumes "results s = Some r" and "pvalues r \<noteq> []"
    and "length (pvalues r) = length (variables s)"
    and "modelXBack s = Some xb" and "length (columns xb) = length (variables s)"
  shows "\<exists>i<length (pvalues r).
           indexRemove (pvalues r) = Inr (int i)
         \<and> (\<forall>j<length (pvalues r). pvalues r ! j \<le> pvalues r ! i)
         \<and> (\<forall>j<i. pvalues r ! j < pvalues r ! i)
         \<and> variables (snd (loop_body sm s))
             = take i (variables s) @ drop (Suc i) (variables s)
         \<and> modelXBack (snd (loop_body sm s))
             = Some (xb\<lparr>columns := take i (columns xb) @ drop (Suc i) (columns xb)\<rparr>)"
proof -
  from indexRemove_props [OF assms(2)] obtain i where i: "i < length (pvalues r)"
    and idx: "indexRemove (pvalues r) = Inr (int i)"
    and mx: "\<forall>j<length (pvalues r). pvalues r ! j \<le> pvalues r ! i"
    and first: "\<forall>j<i. pvalues r ! j < pvalues r ! i" by blast
  from i assms(3) have iv: "i < length (variables s)" by simp
  with assms(5) have ic: "i < length (columns xb)" by simp
  have "variables (snd (loop_body sm s)) = variables (snd (removeColumn (int i) s))"
    by (rule loop_body_variables [OF assms(1) idx])
  also have "\<dots> = take i (variables s) @ drop (Suc i) (variables s)"
    by (rule removeColumn_variables [OF iv])
  finally have vars: "variables (snd (loop_body sm s))
      = take i (variables s) @ drop (Suc i) (variables s)" .
  have "modelXBack (snd (loop_body sm s)) = modelXBack (snd (removeColumn (int i) s))"
    by (rule loop_body_modelXBack [OF assms(1) idx])
  also have "\<dots> = Some (xb\<lparr>columns := take i (columns xb) @ drop (Suc i) (columns xb)\<rparr>)"
    by (rule removeColumn_modelXBack [OF assms(4) iv ic])
  finally show ?thesis using i idx mx first vars by blast
qed

text \<open>
  The refit of a pass is reached with the shrunk working matrix as \<open>x\<close>. When that matrix
  has more than one entry, the test of \<open>modelOLS\<close> raises and nothing is fitted or stored:
  the pass ends with the column and the registry entry removed and the old fit result in
  place.
\<close>

lemma loop_body_refit_raises:
  assumes "results s = Some r" and "indexRemove (pvalues r) = Inr i"
    and "removeColumn i s = (Inr (), s1)" and "modelXBack s1 = Some xb1"
    and "1 < ndarray_size xb1"
  shows "loop_body sm s = (Inl ValueError, s1)"
  by (simp add: loop_body_unfold [OF assms(1,2)] assms(3,4) modelOLS_array_raises [OF assms(5)])

subsection \<open>The concrete runs\<close>

lemma table_sm_simps:
  "OLS (table_sm f) y x = Inr \<lparr>endog = y, exog = x\<rparr>"
  "fit (table_sm f) \<lparr>endog = y, exog = \<lparr>nrows = n, columns = [a, b, c]\<rparr>\<rparr> = Inr (f 3)"
  "fit (table_sm f) \<lparr>endog = y, exog = \<lparr>nrows = n, columns = [a, b]\<rparr>\<rparr> = Inr (f 2)"
  by (simp_all add: table_sm_def numeral_3_eq_3 numeral_2_eq_2)

lemmas step_defs =
  loop_cond_def loop_body_def indexRemove_def py_max_def removeColumn_def list_del_def
  py_index_def np_delete_axis1_def modelOLS_def x_or_y_is_None_def eq_None_truth_def
  ndarray_size_def table_sm_simps

lemma unfitted_eq:
  "unfitted =
     \<lparr>modelX = \<lparr>nrows = 2, columns = [[1, 2], [3, 4], [5, 6]]\<rparr>,
      modelY = [7, 8],
      variables = [''X1'', ''X2'', ''X3''],
      modelXBack = None, model = None, results = None, coef = None,
      Rsquared = None, Rsquared_adj = None\<rparr>"
  by (simp add: unfitted_def init_def demo_exog_def demo_endog_def df_values_def df_columns_def)

lemma fitted_eq:
  "fitted (table_sm f) =
     unfitted\<lparr>model := Some \<lparr>endog = [7, 8], exog = \<lparr>nrows = 2, columns = [[1, 2], [3, 4], [5, 6]]\<rparr>\<rparr>,
              results := Some (f 3),
              coef := Some (params (f 3)),
              Rsquared := Some (rsquared (f 3)),
              Rsquared_adj := Some (rsquared_adj (f 3))\<rparr>"
  by (simp add: fitted_def modelOLS_def x_or_y_is_None_def table_sm_simps unfitted_eq)

lemma first_pass_eq:
  assumes "pvalues (f 3) = [0.8, 0.03, 0.2]"
  shows "loop_body (table_sm f) (started (table_sm f))
           = (Inl ValueError,
              (fitted (table_sm f))
                \<lparr>variables := [''X2'', ''X3''],
                 modelXBack := Some \<lparr>nrows = 2, columns = [[3, 4], [5, 6]]\<rparr>\<rparr>)"
  by (simp add: started_def fitted_eq unfitted_eq step_defs assms)

lemma first_call_eq:
  assumes "pvalues (f 3) = [0.8, 0.03, 0.2]" and "0.7 < rsquared (f 3)" and "0 \<le> maxSteps"
  shows "backwardSelect (table_sm f) 0.05 maxSteps (fitted (table_sm f))
           = (Inl ValueError,
              (fitted (table_sm f))
                \<lparr>variables := [''X2'', ''X3''],
                 modelXBack := Some \<lparr>nrows = 2, columns = [[3, 4], [5, 6]]\<rparr>\<rparr>)"
proof -
  have cond: "loop_cond 0.05 maxSteps 0 (started (table_sm f)) = Inr True"
    using assms by (simp add: started_def fitted_eq unfitted_eq loop_cond_def)
  have "backwardSelect (table_sm f) 0.05 maxSteps (fitted (table_sm f))
          = while_loop (table_sm f) 0.05 maxSteps 0 (started (table_sm f))"
    by (simp add: backwardSelect_def started_def)
  also have "\<dots> = (Inl ValueError,
              (fitted (table_sm f))
                \<lparr>variables := [''X2'', ''X3''],
                 modelXBack := Some \<lparr>nrows = 2, columns = [[3, 4], [5, 6]]\<rparr>\<rparr>)"
    by (subst while_loop.simps)
       (simp only: cond first_pass_eq [where f = f, OF assms(1)] sum.case prod.case if_True)
  finally show ?thesis .
qed

lemma scenario_table_3:
  "pvalues (scenario_table 3) = [0.8, 0.03, 0.2]"
  "params (scenario_table 3) = [1, 2, 3]"
  "rsquared (scenario_table 3) = 0.9"
  "rsquared_adj (scenario_table 3) = 0.85"
  by (simp_all add: scenario_table_def)

lemma scenario_selected_eq:
  "selected (table_sm scenario_table) =
     \<lparr>modelX = \<lparr>nrows = 2, columns = [[1, 2], [3, 4], [5, 6]]\<rparr>,
      modelY = [7, 8],
      variables = [''X2'', ''X3''],
      modelXBack = Some \<lparr>nrows = 2, columns = [[3, 4], [5, 6]]\<rparr>,
      model = Some \<lparr>endog = [7, 8], exog = \<lparr>nrows = 2, columns = [[1, 2], [3, 4], [5, 6]]\<rparr>\<rparr>,
      results = Some (scenario_table 3),
      coef = Some [1, 2, 3],
      Rsquared = Some 0.9,
      Rsquared_adj = Some 0.85\<rparr>"
proof -
  have "(0.7 :: real) < rsquared (scenario_table 3)" "(0 :: int) \<le> 10"
    by (simp_all add: scenario_table_3)
  from first_call_eq [where f = scenario_table, OF scenario_table_3(1) this]
  show ?thesis
    unfolding selected_def by (simp add: fitted_eq unfitted_eq scenario_table_3)
qed

lemma scenario_selected_facts:
  "results (selected (table_sm scenario_table)) = Some (scenario_table 3)"
  "variables (selected (table_sm scenario_table)) = [''X2'', ''X3'']"
  "modelXBack (selected (table_sm scenario_table)) = Some \<lparr>nrows = 2, columns = [[3, 4], [5, 6]]\<rparr>"
  "modelX (selected (table_sm scenario_table)) = \<lparr>nrows = 2, columns = [[1, 2], [3, 4], [5, 6]]\<rparr>"
  "model (selected (table_sm scenario_table))
     = Some \<lparr>endog = [7, 8], exog = \<lparr>nrows = 2, columns = [[1, 2], [3, 4], [5, 6]]\<rparr>\<rparr>"
  "coef (selected (table_sm scenario_table)) = Some [1, 2, 3]"
  "Rsquared (selected (table_sm scenario_table)) = Some 0.9"
  "Rsquared_adj (selected (table_sm scenario_table)) = Some 0.85"
  by (simp_all only: scenario_selected_eq selector.simps)

lemma scenario_started_facts:
  "results (started (table_sm scenario_table)) = Some (scenario_table 3)"
  "Rsquared (started (table_sm scenario_table)) = Some 0.9"
  "variables (started (table_sm scenario_table)) = [''X1'', ''X2'', ''X3'']"
  "modelXBack (started (table_sm scenario_table))
     = Some \<lparr>nrows = 2, columns = [[1, 2], [3, 4], [5, 6]]\<rparr>"
  by (simp_all add: started_def fitted_eq unfitted_eq scenario_table_def)

lemma scenario_body:
  "loop_body (table_sm scenario_table) (started (table_sm scenario_table))
     = (Inl ValueError, selected (table_sm scenario_table))"
  unfolding scenario_selected_eq first_pass_eq [where f = scenario_table, OF scenario_table_3(1)]
  by (simp add: fitted_eq unfitted_eq scenario_table_3)

lemma scenario_reselect_quiet:
  "backwardSelect (table_sm scenario_table) 0.9 10 (selected (table_sm scenario_table)) =
     (Inr (),
      (selected (table_sm scenario_table))
        \<lparr>modelXBack := Some \<lparr>nrows = 2, columns = [[1, 2], [3, 4], [5, 6]]\<rparr>\<rparr>)"
  by (simp only: scenario_selected_eq)
     (simp add: backwardSelect_def while_loop.simps loop_cond_def scenario_table_def)

lemma scenario_reselect:
  "backwardSelect (table_sm scenario_table) 0.05 10 (selected (table_sm scenario_table)) =
     (Inl ValueError,
      (selected (table_sm scenario_table))
        \<lparr>variables := [''X3''],
         modelXBack := Some \<lparr>nrows = 2, columns = [[3, 4], [5, 6]]\<rparr>\<rparr>)"
  by (simp only: scenario_selected_eq)
     (simp add: backwardSelect_def while_loop.simps step_defs scenario_table_def)

lemma scenario_refit_full:
  "modelOLS (table_sm scenario_table) None None (selected (table_sm scenario_table))
     = (Inr (), selected (table_sm scenario_table))"
  by (simp only: scenario_selected_eq)
     (simp add: modelOLS_def x_or_y_is_None_def table_sm_simps scenario_table_def)

subsection \<open>When the loop makes a pass\<close>

lemma some_pvalue_exceeds:
  "(length (filter (\<lambda>p. criteria < p) pv) \<noteq> 0) = (\<exists>p\<in>set pv. criteria < (p::real))"
  by (simp add: filter_empty_conv)

lemma loop_cond_fitted:
  assumes "results s = Some r" and "Rsquared s = Some v"
  shows "loop_cond criteria maxSteps iteration s
           = Inr ((\<exists>p\<in>set (pvalues r). criteria < p) \<and> iteration \<le> maxSteps \<and> 0.7 < v)"
  using some_pvalue_exceeds [of criteria "pvalues r"]
  by (auto simp: loop_cond_def assms)

lemma lowadj_table_3:
  "pvalues (lowadj_table 3) = [0.8, 0.03, 0.2]"
  "rsquared (lowadj_table 3) = 0.75"
  "rsquared_adj (lowadj_table 3) = 0.5"
  by (simp_all add: lowadj_table_def)

lemma weak_fitted_facts:
  "results (fitted (table_sm weak_table)) = Some (weak_table 3)"
  "Rsquared (fitted (table_sm weak_table)) = Some 0.6"
  by (simp_all add: fitted_eq weak_table_def)

text \<open>
  The loop tests \<open>Rsquared\<close>, not \<open>Rsquared_adj\<close>: with the scenario's p-values, R-squared
  0.75 and adjusted R-squared 0.5, a call with the default arguments removes a variable.
  It also makes a pass at an iteration count that is not below \<open>maxSteps\<close>: with
  \<open>maxSteps = 0\<close> the same variable is removed at iteration count 0.
\<close>

theorem select_ignores_adjusted_counterexample:
  "Rsquared_adj (fitted (table_sm lowadj_table)) = Some 0.5
   \<and> (0.5 :: real) \<le> 0.7
   \<and> variables (fitted (table_sm lowadj_table)) = [''X1'', ''X2'', ''X3'']
   \<and> variables (snd (backwardSelect (table_sm lowadj_table) 0.05 10 (fitted (table_sm lowadj_table))))
       = [''X2'', ''X3'']
   \<and> \<not> (0 :: int) < 0
   \<and> variables (snd (backwardSelect (table_sm lowadj_table) 0.05 0 (fitted (table_sm lowadj_table))))
       = [''X2'', ''X3'']"
proof -
  have r2: "(0.7 :: real) < rsquared (lowadj_table 3)"
    by (simp add: lowadj_table_3)
  have "(0 :: int) \<le> 10" by simp
  from first_call_eq [where f = lowadj_table, OF lowadj_table_3(1) r2 this]
  have ten: "variables (snd (backwardSelect (table_sm lowadj_table) 0.05 10 (fitted (table_sm lowadj_table))))
       = [''X2'', ''X3'']"
    by simp
  have "(0 :: int) \<le> 0" by simp
  from first_call_eq [where f = lowadj_table, OF lowadj_table_3(1) r2 this]
  have zero: "variables (snd (backwardSelect (table_sm lowadj_table) 0.05 0 (fitted (table_sm lowadj_table))))
       = [''X2'', ''X3'']"
    by simp
  from ten zero show ?thesis by (simp add: fitted_eq unfitted_eq lowadj_table_3)
qed

text \<open>
  Claim C1, amended. Let the object be fitted. If no current p-value exceeds \<open>criteria\<close>,
  or the iteration count exceeds \<open>maxSteps\<close>, or the current R-squared (not the adjusted
  one) is at most 0.7, the loop does not run its body and leaves the object as it is; under
  the same conditions at iteration count 0, \<open>backwardSelect\<close> only re-initialises the working
  matrix. If some current p-value exceeds \<open>criteria\<close>, the iteration count is below
  \<open>maxSteps\<close> and the current R-squared exceeds 0.7, the loop runs its body and, when the
  body completes, goes on from its result. This holds at every iteration count and every
  state, so each pass is decided on the latest fit result.
\<close>

theorem select_step_conditions:
  assumes "results s = Some r" and "Rsquared s = Some v"
  shows "((\<forall>p\<in>set (pvalues r). p \<le> criteria) \<or> maxSteps < iteration \<or> v \<le> 0.7 \<longrightarrow>
            while_loop sm criteria maxSteps iteration s = (Inr (), s))
       \<and> ((\<forall>p\<in>set (pvalues r). p \<le> criteria) \<or> maxSteps < 0 \<or> v \<le> 0.7 \<longrightarrow>
            backwardSelect sm criteria maxSteps s = (Inr (), s\<lparr>modelXBack := Some (modelX s)\<rparr>))
       \<and> ((\<exists>p\<in>set (pvalues r). criteria < p) \<and> iteration < maxSteps \<and> 0.7 < v \<longrightarrow>
            while_loop sm criteria maxSteps iteration s
              = (case loop_body sm s of
                   (Inl e, s1) \<Rightarrow> (Inl e, s1)
                 | (Inr u, s1) \<Rightarrow> while_loop sm criteria maxSteps (iteration + 1) s1))"
proof (intro conjI impI)
  assume stop: "(\<forall>p\<in>set (pvalues r). p \<le> criteria) \<or> maxSteps < iteration \<or> v \<le> 0.7"
  then have "\<not> ((\<exists>p\<in>set (pvalues r). criteria < p) \<and> iteration \<le> maxSteps \<and> 0.7 < v)"
    by (auto simp: not_less)
  then have "loop_cond criteria maxSteps iteration s = Inr False"
    using loop_cond_fitted [OF assms, of criteria maxSteps iteration] by simp
  then show "while_loop sm criteria maxSteps iteration s = (Inr (), s)"
    by (subst while_loop.simps) simp
next
  assume stop: "(\<forall>p\<in>set (pvalues r). p \<le> criteria) \<or> maxSteps < 0 \<or> v \<le> 0.7"
  then have no: "\<not> ((\<exists>p\<in>set (pvalues r). criteria < p) \<and> 0 \<le> maxSteps \<and> 0.7 < v)"
    by (auto simp: not_less)
  let ?s0 = "s\<lparr>modelXBack := Some (modelX s)\<rparr>"
  have "results ?s0 = Some r" "Rsquared ?s0 = Some v" using assms by simp_all
  from loop_cond_fitted [OF this, of criteria maxSteps 0] no
  have "loop_cond criteria maxSteps 0 ?s0 = Inr False" by simp
  then show "backwardSelect sm criteria maxSteps s = (Inr (), ?s0)"
    unfolding backwardSelect_def by (subst while_loop.simps) simp
next
  assume go: "(\<exists>p\<in>set (pvalues r). criteria < p) \<and> iteration < maxSteps \<and> 0.7 < v"
  have "loop_cond criteria maxSteps iteration s = Inr True"
    using loop_cond_fitted [OF assms, of criteria maxSteps iteration] go by simp
  then show "while_loop sm criteria maxSteps iteration s
              = (case loop_body sm s of
                   (Inl e, s1) \<Rightarrow> (Inl e, s1)
                 | (Inr u, s1) \<Rightarrow> while_loop sm criteria maxSteps (iteration + 1) s1)"
    by (subst while_loop.simps) simp
qed

theorem select_step_conditions_witness:
  "results (fitted (table_sm weak_table)) = Some (weak_table 3)
   \<and> Rsquared (fitted (table_sm weak_table)) = Some 0.6
   \<and> (0.6 :: real) \<le> 0.7
   \<and> backwardSelect (table_sm weak_table) 0.05 10 (fitted (table_sm weak_table))
       = (Inr (), started (table_sm weak_table))
   \<and> results (started (table_sm scenario_table)) = Some (scenario_table 3)
   \<and> Rsquared (started (table_sm scenario_table)) = Some 0.9
   \<and> (10 :: int) < 11
   \<and> while_loop (table_sm scenario_table) 0.05 10 11 (started (table_sm scenario_table))
       = (Inr (), started (table_sm scenario_table))
   \<and> (\<exists>p\<in>set (pvalues (scenario_table 3)). 0.05 < p)
   \<and> (0 :: int) < 10
   \<and> (0.7 :: real) < 0.9
   \<and> while_loop (table_sm scenario_table) 0.05 10 0 (started (table_sm scenario_table))
       = (Inl ValueError, selected (table_sm scenario_table))"
proof -
  have w: "(0.6 :: real) \<le> 0.7" by simp
  have late: "(10 :: int) < 11" by simp
  have g: "(\<exists>p\<in>set (pvalues (scenario_table 3)). (0.05 :: real) < p) \<and> (0 :: int) < 10 \<and> (0.7 :: real) < 0.9"
    by (simp add: scenario_table_3)
  from select_step_conditions [OF weak_fitted_facts, where criteria = "0.05" and sm = "table_sm weak_table"
      and maxSteps = 10 and iteration = 0] w
  have stop: "backwardSelect (table_sm weak_table) 0.05 10 (fitted (table_sm weak_table))
       = (Inr (), started (table_sm weak_table))"
    by (simp add: started_def)
  from select_step_conditions [OF scenario_started_facts(1,2), where criteria = "0.05"
      and sm = "table_sm scenario_table" and maxSteps = 10 and iteration = 11] late
  have over: "while_loop (table_sm scenario_table) 0.05 10 11 (started (table_sm scenario_table))
       = (Inr (), started (table_sm scenario_table))"
    by blast
  from select_step_conditions [OF scenario_started_facts(1,2), where criteria = "0.05"
      and sm = "table_sm scenario_table" and maxSteps = 10 and iteration = 0] g
  have "while_loop (table_sm scenario_table) 0.05 10 0 (started (table_sm scenario_table))
      = (case loop_body (table_sm scenario_table) (started (table_sm scenario_table)) of
           (Inl e, s1) \<Rightarrow> (Inl e, s1)
         | (Inr u, s1) \<Rightarrow> while_loop (table_sm scenario_table) 0.05 10 (0 + 1) s1)"
    by blast
  then have go: "while_loop (table_sm scenario_table) 0.05 10 0 (started (table_sm scenario_table))
       = (Inl ValueError, selected (table_sm scenario_table))"
    by (simp only: scenario_body prod.case sum.case)
  from w late g stop over go weak_fitted_facts scenario_started_facts(1,2) show ?thesis by blast
qed

subsection \<open>How many passes the loop makes\<close>

text \<open>
  The loop is a total function: \<open>maxSteps + 1 - iteration\<close> decreases with every pass. A
  pass shortens the registry by at most one entry, and the loop runs while
  \<open>maxSteps \<ge> iteration\<close>, so a call removes at most \<open>maxSteps + 1\<close> variables.
\<close>

lemma removeColumn_variables_length:
  "length (variables (snd (removeColumn i s))) \<le> length (variables s)
   \<and> length (variables s) \<le> Suc (length (variables (snd (removeColumn i s))))"
proof (cases "list_del (variables s) i")
  case (Inl e)
  then show ?thesis by (simp add: removeColumn_def)
next
  case (Inr vs)
  from list_del_length [OF Inr] have "Suc (length vs) = length (variables s)" .
  moreover have "variables (snd (removeColumn i s)) = vs"
    by (simp add: removeColumn_def Inr Let_def split: sum.split)
  ultimately show ?thesis by simp
qed

lemma loop_body_variables_length:
  "length (variables (snd (loop_body sm s))) \<le> length (variables s)
   \<and> length (variables s) \<le> Suc (length (variables (snd (loop_body sm s))))"
proof (cases "results s")
  case None
  then show ?thesis by (simp add: loop_body_def)
next
  case (Some r)
  show ?thesis
  proof (cases "indexRemove (pvalues r)")
    case (Inl e)
    with Some show ?thesis by (simp add: loop_body_def)
  next
    case (Inr i)
    from loop_body_variables [OF Some Inr] removeColumn_variables_length [of i s]
    show ?thesis by simp
  qed
qed

lemma while_loop_steps_bound:
  "int (length (variables s)) - int (length (variables (snd (while_loop sm criteria maxSteps iteration s))))
     \<le> max 0 (maxSteps + 1 - iteration)"
proof (induction sm criteria maxSteps iteration s rule: while_loop.induct)
  case (1 sm criteria maxSteps iteration s)
  show ?case
  proof (cases "loop_cond criteria maxSteps iteration s")
    case (Inl e)
    then show ?thesis by (subst while_loop.simps) simp
  next
    case (Inr b)
    show ?thesis
    proof (cases b)
      case False
      with Inr show ?thesis by (subst while_loop.simps) simp
    next
      case True
      from Inr True have le: "iteration \<le> maxSteps"
        by (auto simp: loop_cond_def split: option.splits if_splits)
      obtain x y where body: "loop_body sm s = (x, y)" by (cases "loop_body sm s")
      from loop_body_variables_length [of sm s] body
      have one: "int (length (variables s)) - int (length (variables y)) \<le> 1" by simp
      show ?thesis
      proof (cases x)
        case (Inl e)
        have "while_loop sm criteria maxSteps iteration s = (Inl e, y)"
          by (subst while_loop.simps) (simp add: Inr True body Inl)
        with one le show ?thesis by simp
      next
        case (Inr u)
        have eq: "while_loop sm criteria maxSteps iteration s
                = while_loop sm criteria maxSteps (iteration + 1) y"
          by (subst while_loop.simps) (simp add: \<open>loop_cond criteria maxSteps iteration s = Inr b\<close> True body Inr)
        from "1.IH" [OF \<open>loop_cond criteria maxSteps iteration s = Inr b\<close> True body [symmetric] Inr]
        have "int (length (variables y))
               - int (length (variables (snd (while_loop sm criteria maxSteps (iteration + 1) y))))
               \<le> max 0 (maxSteps + 1 - (iteration + 1))" .
        with one le show ?thesis unfolding eq by simp
      qed
    qed
  qed
qed

lemma backwardSelect_steps_bound:
  "int (length (variables s)) - int (length (variables (snd (backwardSelect sm criteria maxSteps s))))
     \<le> max 0 (maxSteps + 1)"
  using while_loop_steps_bound [of "s\<lparr>modelXBack := Some (modelX s)\<rparr>" sm criteria maxSteps 0]
  by (simp add: backwardSelect_def)

text \<open>
  Claim C2 says that at most \<open>maxSteps\<close> variables are removed. With \<open>maxSteps = 0\<close> the
  loop still makes its first pass, which takes \<open>X1\<close> out of the registry before the refit
  is reached: one variable is removed where the bound is zero.
\<close>

theorem select_exceeds_maxSteps:
  "variables (fitted (table_sm scenario_table)) = [''X1'', ''X2'', ''X3'']
   \<and> variables (snd (backwardSelect (table_sm scenario_table) 0.05 0 (fitted (table_sm scenario_table))))
       = [''X2'', ''X3'']"
proof -
  have "(0.7 :: real) < rsquared (scenario_table 3)" "(0 :: int) \<le> 0"
    by (simp_all add: scenario_table_3)
  from first_call_eq [where f = scenario_table, OF scenario_table_3(1) this]
  have "variables (snd (backwardSelect (table_sm scenario_table) 0.05 0 (fitted (table_sm scenario_table))))
       = [''X2'', ''X3'']"
    by simp
  then show ?thesis by (simp add: fitted_eq unfitted_eq)
qed

subsection \<open>The refit of a pass\<close>

text \<open>
  Claim C5 says that each pass refits the model on the shrunk working matrix and overwrites
  the stored fit result. In the scenario the first pass removes the column and the registry
  entry of \<open>X1\<close> and then calls \<open>modelOLS\<close> with the working matrix of two rows and two
  columns, where the test \<^verbatim>\<open>x == None\<close> raises: nothing is fitted, the stored fit result,
  coefficients, R-squared and adjusted R-squared are those of the full model, and the call
  of \<open>backwardSelect\<close> ends with the error.
\<close>

theorem pass_does_not_refit:
  "loop_cond 0.05 10 0 (started (table_sm scenario_table)) = Inr True
   \<and> loop_body (table_sm scenario_table) (started (table_sm scenario_table))
       = (Inl ValueError, selected (table_sm scenario_table))
   \<and> variables (selected (table_sm scenario_table)) = [''X2'', ''X3'']
   \<and> modelXBack (selected (table_sm scenario_table))
       = Some \<lparr>nrows = 2, columns = [[3, 4], [5, 6]]\<rparr>
   \<and> model (selected (table_sm scenario_table)) = model (started (table_sm scenario_table))
   \<and> results (selected (table_sm scenario_table)) = results (started (table_sm scenario_table))
   \<and> coef (selected (table_sm scenario_table)) = coef (started (table_sm scenario_table))
   \<and> Rsquared (selected (table_sm scenario_table)) = Rsquared (started (table_sm scenario_table))
   \<and> Rsquared_adj (selected (table_sm scenario_table))
       = Rsquared_adj (started (table_sm scenario_table))
   \<and> backwardSelect (table_sm scenario_table) 0.05 10 (fitted (table_sm scenario_table))
       = (Inl ValueError, selected (table_sm scenario_table))"
proof -
  have cond: "loop_cond 0.05 10 0 (started (table_sm scenario_table)) = Inr True"
    by (simp add: started_def fitted_eq unfitted_eq loop_cond_def scenario_table_def)
  have same: "model (selected (table_sm scenario_table)) = model (started (table_sm scenario_table))"
    "results (selected (table_sm scenario_table)) = results (started (table_sm scenario_table))"
    "coef (selected (table_sm scenario_table)) = coef (started (table_sm scenario_table))"
    "Rsquared (selected (table_sm scenario_table)) = Rsquared (started (table_sm scenario_table))"
    "Rsquared_adj (selected (table_sm scenario_table))
       = Rsquared_adj (started (table_sm scenario_table))"
    by (simp_all add: scenario_selected_facts started_def fitted_eq unfitted_eq scenario_table_3)
  have "(0.7 :: real) < rsquared (scenario_table 3)" "(0 :: int) \<le> 10"
    by (simp_all add: scenario_table_3)
  from first_call_eq [where f = scenario_table, OF scenario_table_3(1) this]
  have call: "backwardSelect (table_sm scenario_table) 0.05 10 (fitted (table_sm scenario_table))
       = (Inl ValueError, selected (table_sm scenario_table))"
    unfolding scenario_selected_eq by (simp add: fitted_eq unfitted_eq scenario_table_3)
  from cond scenario_body same call scenario_selected_facts(2,3) show ?thesis by simp
qed

subsection \<open>A second call\<close>

text \<open>
  Claim C4 says that every call starts from the full registry. The registry is assigned in
  the constructor only: after the scenario's first call has removed \<open>X1\<close>, a second call
  re-initialises the working matrix to all three columns and leaves the registry at two
  entries. A second call that makes no pass (no p-value exceeds 0.9) returns the state it
  started from; a second call with the default arguments goes on to remove another entry.
\<close>

theorem reselect_keeps_shrunk_registry:
  "df_columns demo_exog = [''X1'', ''X2'', ''X3'']
   \<and> variables (selected (table_sm scenario_table)) = [''X2'', ''X3'']
   \<and> backwardSelect (table_sm scenario_table) 0.9 10 (selected (table_sm scenario_table))
       = (Inr (), (selected (table_sm scenario_table))
                    \<lparr>modelXBack := Some (df_values demo_exog)\<rparr>)
   \<and> variables (snd (backwardSelect (table_sm scenario_table) 0.05 10
                        (selected (table_sm scenario_table)))) = [''X3'']"
  unfolding scenario_reselect_quiet scenario_reselect
  by (simp add: scenario_selected_facts df_columns_def df_values_def demo_exog_def)

text \<open>
  Claim C3 says that every pass removes the variable whose current p-value is the largest.
  After the scenario's first call the latest fit is the one of the full model, with p-values
  0.8 for \<open>X1\<close>, 0.03 for \<open>X2\<close> and 0.2 for \<open>X3\<close>, and the registry is \<open>[X2, X3]\<close>; calling
  \<open>modelOLS()\<close> again changes nothing of this. The pass of a second call finds the largest
  p-value at index 0 and removes the registry entry at index 0, which is \<open>X2\<close>, the variable
  with the smallest p-value.
\<close>

theorem reselect_removes_other_variable:
  "map_option exog (model (selected (table_sm scenario_table))) = Some (df_values demo_exog)
   \<and> df_columns demo_exog = [''X1'', ''X2'', ''X3'']
   \<and> map_option pvalues (results (selected (table_sm scenario_table))) = Some [0.8, 0.03, 0.2]
   \<and> variables (selected (table_sm scenario_table)) = [''X2'', ''X3'']
   \<and> modelOLS (table_sm scenario_table) None None (selected (table_sm scenario_table))
       = (Inr (), selected (table_sm scenario_table))
   \<and> variables (snd (backwardSelect (table_sm scenario_table) 0.05 10
                        (selected (table_sm scenario_table)))) = [''X3'']"
  unfolding scenario_reselect scenario_refit_full
  by (simp add: scenario_selected_facts scenario_table_3 df_columns_def df_values_def demo_exog_def)

text \<open>
  Within one pass the registry and the working matrix shrink together, and they stay
  equally long throughout a call that starts with the registry as long as the predictor
  matrix is wide, as it is after construction.
\<close>

lemma removeColumn_lockstep:
  assumes "modelXBack s = Some xb" and "length (variables s) = length (columns xb)"
  shows "\<exists>xb1. modelXBack (snd (removeColumn i s)) = Some xb1
           \<and> length (variables (snd (removeColumn i s))) = length (columns xb1)"
proof (cases "list_del (variables s) i")
  case (Inl e)
  with assms show ?thesis by (simp add: removeColumn_def)
next
  case (Inr vs)
  from list_del_same_length [OF assms(2), of i] Inr
  obtain cs where cs: "list_del (columns xb) i = Inr cs" by (cases "list_del (columns xb) i") auto
  have "removeColumn i s = (Inr (), s\<lparr>variables := vs, modelXBack := Some (xb\<lparr>columns := cs\<rparr>)\<rparr>)"
    by (simp add: removeColumn_def Inr assms(1) np_delete_axis1_def cs)
  from removeColumn_sync [OF assms this] show ?thesis
    using \<open>removeColumn i s = _\<close> by auto
qed

lemma loop_body_lockstep:
  assumes "modelXBack s = Some xb" and "length (variables s) = length (columns xb)"
  shows "\<exists>xb1. modelXBack (snd (loop_body sm s)) = Some xb1
           \<and> length (variables (snd (loop_body sm s))) = length (columns xb1)"
proof (cases "results s")
  case None
  with assms show ?thesis by (simp add: loop_body_def)
next
  case (Some r)
  show ?thesis
  proof (cases "indexRemove (pvalues r)")
    case (Inl e)
    with Some assms show ?thesis by (simp add: loop_body_def)
  next
    case (Inr i)
    obtain res s0 where rc: "removeColumn i s = (res, s0)" by (cases "removeColumn i s")
    from removeColumn_lockstep [OF assms, of i] rc
    obtain xb1 where s0: "modelXBack s0 = Some xb1" "length (variables s0) = length (columns xb1)"
      by auto
    have "modelXBack (snd (loop_body sm s)) = modelXBack s0
          \<and> variables (snd (loop_body sm s)) = variables s0"
      by (cases res) (simp_all add: loop_body_unfold [OF Some Inr] rc modelOLS_frame)
    with s0 show ?thesis by simp
  qed
qed

lemma while_loop_lockstep:
  assumes "modelXBack s = Some xb" and "length (variables s) = length (columns xb)"
  shows "\<exists>xb1. modelXBack (snd (while_loop sm criteria maxSteps iteration s)) = Some xb1
           \<and> length (variables (snd (while_loop sm criteria maxSteps iteration s)))
               = length (columns xb1)"
  using assms
proof (induction sm criteria maxSteps iteration s arbitrary: xb rule: while_loop.induct)
  case (1 sm criteria maxSteps iteration s)
  show ?case
  proof (cases "loop_cond criteria maxSteps iteration s")
    case (Inl e)
    with "1.prems" show ?thesis by (subst (1 2) while_loop.simps) simp
  next
    case (Inr b)
    note cond = this
    show ?thesis
    proof (cases b)
      case False
      with cond "1.prems" show ?thesis by (subst (1 2) while_loop.simps) simp
    next
      case True
      obtain x y where body: "loop_body sm s = (x, y)" by (cases "loop_body sm s")
      from loop_body_lockstep [OF "1.prems", of sm] body
      obtain xb1 where y: "modelXBack y = Some xb1" "length (variables y) = length (columns xb1)"
        by auto
      show ?thesis
      proof (cases x)
        case (Inl e)
        have "while_loop sm criteria maxSteps iteration s = (Inl e, y)"
          by (subst while_loop.simps) (simp add: cond True body Inl)
        with y show ?thesis by simp
      next
        case (Inr u)
        have eq: "while_loop sm criteria maxSteps iteration s
                = while_loop sm criteria maxSteps (iteration + 1) y"
          by (subst while_loop.simps) (simp add: cond True body Inr)
        from "1.IH" [OF cond True body [symmetric] Inr y]
        show ?thesis unfolding eq .
      qed
    qed
  qed
qed

lemma first_select_lockstep:
  assumes "length (variables s) = length (columns (modelX s))"
  shows "\<exists>xb1. modelXBack (snd (backwardSelect sm criteria maxSteps s)) = Some xb1
           \<and> length (variables (snd (backwardSelect sm criteria maxSteps s)))
               = length (columns xb1)"
  unfolding backwardSelect_def
  by (rule while_loop_lockstep [of _ "modelX s"]) (simp_all add: assms)

lemma init_lockstep:
  assumes "init exog_df endog_v = Inr s"
  shows "length (variables s) = length (columns (modelX s))"
  using assms by (auto simp: init_def df_values_def df_columns_def)

text \<open>
  Claim C6 says that the registry is as long as the working matrix is wide after every
  mutation. After the re-initialisation of the working matrix in the scenario's second call
  the matrix has three columns and the registry two entries (seen in the result of a second
  call that makes no pass); at the end of a second call with the default arguments the
  matrix has two columns and the registry one entry.
\<close>

theorem reselect_breaks_lockstep:
  "map_option (\<lambda>xb. length (columns xb))
     (modelXBack (snd (backwardSelect (table_sm scenario_table) 0.9 10
                         (selected (table_sm scenario_table))))) = Some 3
   \<and> length (variables (snd (backwardSelect (table_sm scenario_table) 0.9 10
                         (selected (table_sm scenario_table))))) = 2
   \<and> map_option (\<lambda>xb. length (columns xb))
     (modelXBack (snd (backwardSelect (table_sm scenario_table) 0.05 10
                         (selected (table_sm scenario_table))))) = Some 2
   \<and> length (variables (snd (backwardSelect (table_sm scenario_table) 0.05 10
                         (selected (table_sm scenario_table))))) = 1"
  unfolding scenario_reselect_quiet scenario_reselect snd_conv
  by (simp add: scenario_selected_facts)

subsection \<open>Operations on an object that was never fitted\<close>

text \<open>
  Claim C7. On an object whose fit result is still \<open>None\<close>, \<open>backwardSelect\<close> and
  \<open>predict\<close> both fail: each dereferences the missing fit result, which raises
  \<open>AttributeError\<close> (the failure the specification calls NotFitted). Neither returns a
  value; \<open>backwardSelect\<close> has by then replaced the working matrix and nothing else.
\<close>

theorem unfitted_operations_fail:
  assumes "results s = None"
  shows "backwardSelect sm criteria maxSteps s
           = (Inl AttributeError, s\<lparr>modelXBack := Some (modelX s)\<rparr>)
         \<and> predict s exogTest = (Inl AttributeError, s)"
proof -
  have "loop_cond criteria maxSteps 0 (s\<lparr>modelXBack := Some (modelX s)\<rparr>) = Inl AttributeError"
    by (simp add: loop_cond_def assms)
  then have "backwardSelect sm criteria maxSteps s
               = (Inl AttributeError, s\<lparr>modelXBack := Some (modelX s)\<rparr>)"
    unfolding backwardSelect_def by (subst while_loop.simps) simp
  moreover have "predict s exogTest = (Inl AttributeError, s)"
    by (simp add: predict_def assms)
  ultimately show ?thesis by simp
qed

theorem unfitted_operations_fail_witness:
  "results unfitted = None
   \<and> fst (backwardSelect (table_sm scenario_table) 0.05 10 unfitted) = Inl AttributeError
   \<and> fst (predict unfitted demo_test) = Inl AttributeError"
proof -
  have h: "results unfitted = None" by (simp add: unfitted_eq)
  from unfitted_operations_fail [OF h, of "table_sm scenario_table" "0.05" 10 demo_test] h
  show ?thesis by simp
qed

subsection \<open>Construction\<close>

text \<open>
  The constructor makes no check of the length of the target vector: with two observations
  and a target vector of length one it returns an object.
\<close>

theorem init_accepts_mismatch_counterexample:
  "length [7 :: real] \<noteq> index_len demo_exog \<and> \<not> isl (init demo_exog [7])"
  by (simp add: demo_exog_def init_def)

text \<open>
  Claim C8, amended. Construction stores the predictor matrix, the variable identifiers and
  the target vector and never fails, whatever the length of the target vector; no fit result
  and no working matrix exist yet.
\<close>

theorem init_stores_and_never_fails:
  "\<exists>s. init exog_df endog_v = Inr s
       \<and> modelX s = df_values exog_df \<and> modelY s = endog_v
       \<and> variables s = df_columns exog_df
       \<and> modelXBack s = None \<and> results s = None"
  by (simp add: init_def)

subsection \<open>Prediction\<close>

lemma filter_label_single:
  assumes "length (filter (\<lambda>c. fst c = l) cs) = 1"
  shows "filter (\<lambda>c. fst c = l) cs = [(l, the (map_of cs l))]"
  using assms
proof (induction cs)
  case Nil
  then show ?case by simp
next
  case (Cons p cs)
  show ?case
  proof (cases "fst p = l")
    case True
    with Cons.prems have "filter (\<lambda>c. fst c = l) cs = []" by simp
    moreover from True have "p = (l, snd p)" by auto
    ultimately show ?thesis using True by simp
  next
    case False
    with Cons.prems have "length (filter (\<lambda>c. fst c = l) cs) = 1" by simp
    then have "filter (\<lambda>c. fst c = l) cs = [(l, the (map_of cs l))]" by (rule Cons.IH)
    with False show ?thesis by (cases p) simp
  qed
qed

lemma label_present_iff: "l \<in> set (map fst cs) \<longleftrightarrow> filter (\<lambda>c. fst c = l) cs \<noteq> []"
  by (auto simp: filter_empty_conv)

lemma concat_map_singleton: "concat (map (\<lambda>l. [g l]) ls) = map g ls"
  by (induction ls) simp_all

lemma loc_columns_single:
  assumes "\<forall>l\<in>set labels. length (filter (\<lambda>c. fst c = l) (cols df)) = 1"
  shows "loc_columns df labels
           = Inr (df\<lparr>cols := map (\<lambda>l. (l, the (map_of (cols df) l))) labels\<rparr>)"
proof -
  have "map (\<lambda>l. filter (\<lambda>c. fst c = l) (cols df)) labels
          = map (\<lambda>l. [(l, the (map_of (cols df) l))]) labels"
  proof (rule map_cong [OF refl])
    fix l
    assume "l \<in> set labels"
    with assms have "length (filter (\<lambda>c. fst c = l) (cols df)) = 1" by blast
    then show "filter (\<lambda>c. fst c = l) (cols df) = [(l, the (map_of (cols df) l))]"
      by (rule filter_label_single)
  qed
  then have picked: "concat (map (\<lambda>l. filter (\<lambda>c. fst c = l) (cols df)) labels)
          = map (\<lambda>l. (l, the (map_of (cols df) l))) labels"
    by (simp only: concat_map_singleton)
  have "l \<in> set (map fst (cols df))" if "l \<in> set labels" for l
  proof -
    from assms that have "length (filter (\<lambda>c. fst c = l) (cols df)) = 1" by blast
    then have "filter (\<lambda>c. fst c = l) (cols df) \<noteq> []" by auto
    then show ?thesis using label_present_iff [of l "cols df"] by blast
  qed
  then have "\<forall>l\<in>set labels. l \<in> set (map fst (cols df))" by blast
  with picked show ?thesis unfolding loc_columns_def by simp
qed

lemma loc_columns_cong:
  assumes "\<forall>l\<in>set labels. filter (\<lambda>c. fst c = l) (cols df') = filter (\<lambda>c. fst c = l) (cols df)"
    and "index_len df' = index_len df"
  shows "loc_columns df' labels = loc_columns df labels"
proof -
  have same: "map (\<lambda>l. filter (\<lambda>c. fst c = l) (cols df')) labels
          = map (\<lambda>l. filter (\<lambda>c. fst c = l) (cols df)) labels"
    using assms(1) by (intro map_cong refl) blast
  have "(l \<in> set (map fst (cols df'))) = (l \<in> set (map fst (cols df)))" if "l \<in> set labels" for l
    using assms(1) that label_present_iff [of l "cols df'"] label_present_iff [of l "cols df"]
    by simp
  then have present: "(\<forall>l\<in>set labels. l \<in> set (map fst (cols df')))
                    = (\<forall>l\<in>set labels. l \<in> set (map fst (cols df)))"
    by blast
  have "df'\<lparr>cols := cs\<rparr> = df\<lparr>cols := cs\<rparr>" for cs
    using assms(2) by simp
  then show ?thesis
    unfolding loc_columns_def by (simp only: same present)
qed

lemma sum_list_map2_nth:
  assumes "length xs = length ys"
  shows "sum_list (map2 f xs ys) = (\<Sum>j<length xs. f (xs ! j) (ys ! j))"
proof -
  have "sum_list (map2 f xs ys) = (\<Sum>j = 0..<length xs. map2 f xs ys ! j)"
    using assms by (simp add: sum_list_sum_nth)
  also have "\<dots> = (\<Sum>j = 0..<length xs. f (xs ! j) (ys ! j))"
    using assms by (intro sum.cong) simp_all
  finally show ?thesis by (simp add: atLeast0LessThan)
qed

lemma results_predict_linear:
  assumes "length (params r) = length labels"
  shows "results_predict r \<lparr>index_len = n, cols = map (\<lambda>l. (l, g l)) labels\<rparr>
           = Inr (map (\<lambda>i. \<Sum>j<length labels. g (labels ! j) ! i * params r ! j) [0..<n])"
proof -
  have "sum_list (map2 (\<lambda>c b. snd c ! i * b) (map (\<lambda>l. (l, g l)) labels) (params r))
          = (\<Sum>j<length labels. g (labels ! j) ! i * params r ! j)" for i
    using sum_list_map2_nth [of "map (\<lambda>l. (l, g l)) labels" "params r" "\<lambda>c b. snd c ! i * b"] assms
    by simp
  then show ?thesis using assms by (simp add: results_predict_def)
qed

text \<open>
  A column for each registry entry is not enough when a label is carried by two columns:
  \<^verbatim>\<open>loc\<close> then hands over both and the product with the coefficients fails. It fails as
  well on any input when the object holds more coefficients than registry entries, as it
  does after the scenario's call of \<open>backwardSelect\<close>.
\<close>

theorem predict_repeated_label_counterexample:
  "results (fitted (table_sm scenario_table)) = Some (scenario_table 3)
   \<and> set (variables (fitted (table_sm scenario_table))) \<subseteq> set (map fst (cols demo_test_dup))
   \<and> fst (predict (fitted (table_sm scenario_table)) demo_test_dup) = Inl ValueError
   \<and> results (selected (table_sm scenario_table)) = Some (scenario_table 3)
   \<and> set (variables (selected (table_sm scenario_table))) \<subseteq> set (map fst (cols demo_test))
   \<and> fst (predict (selected (table_sm scenario_table)) demo_test) = Inl ValueError"
  by (simp add: scenario_selected_facts)
     (simp add: fitted_eq unfitted_eq predict_def loc_columns_def results_predict_def
        demo_test_dup_def demo_test_def scenario_table_3 scenario_selected_facts)

text \<open>
  Claim C9, amended. Let the object be fitted. Two inputs with equally many rows that hold
  the same columns under the label of each registry entry give the same result, whatever
  the order of their columns and whatever columns they hold under other labels. If each
  registry entry labels exactly one column of the input, \<open>predict\<close> hands to the fit result
  the input's columns picked by label in the order of the registry; with one coefficient
  for each registry entry, the value predicted for a row is then the sum, over the registry
  in its order, of the coefficient times the row's entry in the column of that label.
\<close>

theorem predict_alignment:
  assumes "results s = Some r"
    and "\<forall>l\<in>set (variables s).
           filter (\<lambda>c. fst c = l) (cols df') = filter (\<lambda>c. fst c = l) (cols df)"
    and "index_len df' = index_len df"
  shows "predict s df' = predict s df
         \<and> ((\<forall>l\<in>set (variables s). length (filter (\<lambda>c. fst c = l) (cols df)) = 1) \<longrightarrow>
              fst (predict s df)
                = results_predict r
                    \<lparr>index_len = index_len df,
                     cols = map (\<lambda>l. (l, the (map_of (cols df) l))) (variables s)\<rparr>
              \<and> (length (params r) = length (variables s) \<longrightarrow>
                   fst (predict s df)
                     = Inr (map (\<lambda>i. \<Sum>j<length (variables s).
                                         the (map_of (cols df) (variables s ! j)) ! i * params r ! j)
                                [0..<index_len df])))"
proof -
  let ?pick = "map (\<lambda>l. (l, the (map_of (cols df) l))) (variables s)"
  have same: "predict s df' = predict s df"
    by (simp add: predict_def assms(1) loc_columns_cong [OF assms(2,3)])
  have picked: "fst (predict s df) = results_predict r \<lparr>index_len = index_len df, cols = ?pick\<rparr>"
    if one: "\<forall>l\<in>set (variables s). length (filter (\<lambda>c. fst c = l) (cols df)) = 1"
  proof -
    have shape: "df\<lparr>cols := ?pick\<rparr> = \<lparr>index_len = index_len df, cols = ?pick\<rparr>"
      by simp
    show ?thesis
      by (simp add: predict_def assms(1) loc_columns_single [OF one] shape)
  qed
  have linear: "fst (predict s df)
           = Inr (map (\<lambda>i. \<Sum>j<length (variables s).
                               the (map_of (cols df) (variables s ! j)) ! i * params r ! j)
                      [0..<index_len df])"
    if one: "\<forall>l\<in>set (variables s). length (filter (\<lambda>c. fst c = l) (cols df)) = 1"
      and len: "length (params r) = length (variables s)"
    unfolding picked [OF one] by (rule results_predict_linear [OF len])
  from same picked linear show ?thesis by blast
qed

lemma scenario_fitted_facts:
  "results (fitted (table_sm scenario_table)) = Some (scenario_table 3)"
  "variables (fitted (table_sm scenario_table)) = [''X1'', ''X2'', ''X3'']"
  by (simp_all add: fitted_eq unfitted_eq)

theorem predict_alignment_witness:
  "results (fitted (table_sm scenario_table)) = Some (scenario_table 3)
   \<and> map (\<lambda>l. filter (\<lambda>c. fst c = l) (cols demo_test_only))
         (variables (fitted (table_sm scenario_table)))
       = map (\<lambda>l. filter (\<lambda>c. fst c = l) (cols demo_test))
           (variables (fitted (table_sm scenario_table)))
   \<and> index_len demo_test_only = index_len demo_test
   \<and> map (\<lambda>l. length (filter (\<lambda>c. fst c = l) (cols demo_test)))
         (variables (fitted (table_sm scenario_table))) = [1, 1, 1]
   \<and> length (params (scenario_table 3)) = length (variables (fitted (table_sm scenario_table)))
   \<and> fst (predict (fitted (table_sm scenario_table)) demo_test) = Inr [7, 6]
   \<and> predict (fitted (table_sm scenario_table)) demo_test_only
       = predict (fitted (table_sm scenario_table)) demo_test"
proof -
  let ?s = "fitted (table_sm scenario_table)"
  have h1: "results ?s = Some (scenario_table 3)" by (rule scenario_fitted_facts)
  have h2: "\<forall>l\<in>set (variables ?s).
         filter (\<lambda>c. fst c = l) (cols demo_test_only) = filter (\<lambda>c. fst c = l) (cols demo_test)"
    by (simp add: scenario_fitted_facts demo_test_only_def demo_test_def)
  have h3: "index_len demo_test_only = index_len demo_test"
    by (simp add: demo_test_only_def demo_test_def)
  have h4: "\<forall>l\<in>set (variables ?s). length (filter (\<lambda>c. fst c = l) (cols demo_test)) = 1"
    by (simp add: scenario_fitted_facts demo_test_def)
  have h5: "length (params (scenario_table 3)) = length (variables ?s)"
    by (simp add: scenario_fitted_facts scenario_table_3)
  have val: "map (\<lambda>i. \<Sum>j<length (variables ?s).
                 the (map_of (cols demo_test) (variables ?s ! j)) ! i
                 * params (scenario_table 3) ! j) [0..<index_len demo_test] = [7, 6 :: real]"
    by (simp add: scenario_fitted_facts scenario_table_3 demo_test_def lessThan_Suc upt_conv_Cons)
  from predict_alignment [OF h1 h2 h3]
  have same: "predict ?s demo_test_only = predict ?s demo_test"
    and lin: "(\<forall>l\<in>set (variables ?s). length (filter (\<lambda>c. fst c = l) (cols demo_test)) = 1)
      \<longrightarrow> (length (params (scenario_table 3)) = length (variables ?s)
        \<longrightarrow> fst (predict ?s demo_test)
          = Inr (map (\<lambda>i. \<Sum>j<length (variables ?s).
                 the (map_of (cols demo_test) (variables ?s ! j)) ! i
                 * params (scenario_table 3) ! j) [0..<index_len demo_test]))"
    by blast+
  from lin h4 h5 have "fst (predict ?s demo_test)
          = Inr (map (\<lambda>i. \<Sum>j<length (variables ?s).
                 the (map_of (cols demo_test) (variables ?s ! j)) ! i
                 * params (scenario_table 3) ! j) [0..<index_len demo_test])"
    by blast
  then have "fst (predict ?s demo_test) = Inr [7, 6]"
    unfolding val .
  moreover have "map (\<lambda>l. filter (\<lambda>c. fst c = l) (cols demo_test_only)) (variables ?s)
       = map (\<lambda>l. filter (\<lambda>c. fst c = l) (cols demo_test)) (variables ?s)"
    using h2 by simp
  moreover have "map (\<lambda>l. length (filter (\<lambda>c. fst c = l) (cols demo_test))) (variables ?s)
       = [1, 1, 1]"
    by (simp add: scenario_fitted_facts demo_test_def)
  ultimately show ?thesis using same h1 h3 h5 by blast
qed

text \<open>
  Claim C10. \<open>predict\<close> returns the object as it received it: no field changes, whether
  the call succeeds or fails.
\<close>

theorem predict_frame: "snd (predict s exogTest) = s"
  by (simp add: predict_def split: option.split sum.split)

theorem predict_frame_witness:
  "snd (predict (selected (table_sm scenario_table)) demo_test) = selected (table_sm scenario_table)
   \<and> snd (predict unfitted demo_test) = unfitted"
  using predict_frame [of "selected (table_sm scenario_table)" demo_test]
    predict_frame [of unfitted demo_test]
  by simp

end
